theory Spec2Isabelle
  imports Main "HOL-Library.Word"
begin

section \<open>UART baudrate detection (ASCII): the module \<open>baudrate_ascii.py\<close>\<close>

text \<open>
  The module drives an adapter through library calls and talks to the operator through a
  logger and a prompt. The embedding keeps every such call as an event of a trace, in the
  order the code makes it, and takes what the outside world answers (whether a polling
  window delivers a byte, which byte, whether an adapter call raises, what the operator
  types) as an explicit input. The progress display (\<open>logger.progress\<close>, \<open>status\<close>,
  \<open>stop\<close>) never influences control flow and is left out of the trace.
\<close>

subsection \<open>Python values and string operations\<close>

type_synonym byte = "8 word"

text \<open>
  \<open>receive(1)\<close> returns a \<open>bytes\<close> object; after the decoding attempt the variable
  \<open>byte\<close> holds either a \<open>str\<close> or that \<open>bytes\<close> object. Python strings are modelled
  as \<open>string\<close>, that is over the code points below 256.
\<close>

datatype pyval = PStr string | PBytes "byte list"

datatype error = ValueError | DeviceError

text \<open>\<open>chr(n)\<close> for the code points the module uses (all below 256).\<close>

definition chr :: "nat \<Rightarrow> string" where
  "chr n = [char_of n]"

text \<open>
  \<open>tmp.decode('utf-8')\<close> on a \<open>bytes\<close> object of length one: a byte below 0x80 is the
  character with that code point; a single byte from 0x80 upwards is never a complete
  UTF-8 sequence, and \<open>UnicodeDecodeError\<close> is raised (\<open>None\<close>).
\<close>

definition decode_utf8 :: "byte \<Rightarrow> string option" where
  "decode_utf8 b = (if unat b < 128 then Some (chr (unat b)) else None)"

text \<open>
  \<open>str.upper()\<close>. Lower-case ASCII and Latin-1 letters move down by 32; the sharp s
  (223) becomes \<open>SS\<close>. The upper-case forms of code points 181 and 255 lie beyond 255:
  they are kept as they are, which gives every comparison with an ASCII literal (the only
  use the module makes of \<open>upper\<close>) the result Python computes.
\<close>

definition upper_char :: "char \<Rightarrow> string" where
  "upper_char c =
     (let n = (of_char c :: nat)
      in if 97 \<le> n \<and> n \<le> 122 then [char_of (n - 32)]
         else if n = 223 then ''SS''
         else if 224 \<le> n \<and> n \<le> 254 \<and> n \<noteq> 247 then [char_of (n - 32)]
         else [c])"

definition upper :: "string \<Rightarrow> string" where
  "upper s = concat (map upper_char s)"

text \<open>\<open>str.split(sep)\<close> with an explicit one-character separator.\<close>

fun split_acc :: "char \<Rightarrow> string \<Rightarrow> string \<Rightarrow> string list" where
  "split_acc sep acc [] = [rev acc]"
| "split_acc sep acc (c # cs) =
     (if c = sep then rev acc # split_acc sep [] cs else split_acc sep (c # acc) cs)"

definition split :: "string \<Rightarrow> char \<Rightarrow> string list" where
  "split s sep = split_acc sep [] s"

text \<open>\<open>str.strip()\<close>: the white space of Python among the code points below 256.\<close>

definition is_space :: "char \<Rightarrow> bool" where
  "is_space c =
     (let n = (of_char c :: nat)
      in (9 \<le> n \<and> n \<le> 13) \<or> (28 \<le> n \<and> n \<le> 32) \<or> n = 133 \<or> n = 160)"

definition strip :: "string \<Rightarrow> string" where
  "strip s = rev (dropWhile is_space (rev (dropWhile is_space s)))"

text \<open>
  \<open>int(b.strip())\<close>: an optional sign, then decimal digits, where single underscores may
  stand between digits; anything else raises \<open>ValueError\<close>.
\<close>

definition is_digit :: "char \<Rightarrow> bool" where
  "is_digit c = (48 \<le> (of_char c :: nat) \<and> (of_char c :: nat) \<le> 57)"

fun digits :: "string \<Rightarrow> nat \<Rightarrow> nat option" where
  "digits [] acc = Some acc"
| "digits (c # cs) acc =
     (if is_digit c then digits cs (10 * acc + (of_char c - 48))
      else if c = CHR ''_'' then
        (case cs of
           [] \<Rightarrow> None
         | d # ds \<Rightarrow> if is_digit d then digits cs acc else None)
      else None)"

definition unsigned :: "string \<Rightarrow> nat option" where
  "unsigned s =
     (case s of
        [] \<Rightarrow> None
      | c # cs \<Rightarrow> if is_digit c then digits s 0 else None)"

definition int_of_stripped :: "string \<Rightarrow> error + int" where
  "int_of_stripped b =
     (let t = strip b;
          r = (case t of
                 [] \<Rightarrow> None
               | c # cs \<Rightarrow>
                   if c = CHR ''+'' then map_option int (unsigned cs)
                   else if c = CHR ''-'' then map_option (\<lambda>n. - int n) (unsigned cs)
                   else map_option int (unsigned t))
      in case r of None \<Rightarrow> Inl ValueError | Some v \<Rightarrow> Inr v)"

text \<open>
  A list comprehension over a fallible expression: the first element that raises ends
  the comprehension with that exception.
\<close>

fun comprehension :: "('a \<Rightarrow> error + 'b) \<Rightarrow> 'a list \<Rightarrow> error + 'b list" where
  "comprehension f [] = Inr []"
| "comprehension f (x # xs) =
     (case f x of
        Inl e \<Rightarrow> Inl e
      | Inr y \<Rightarrow> (case comprehension f xs of Inl e \<Rightarrow> Inl e | Inr ys \<Rightarrow> Inr (y # ys)))"

text \<open>
  \<open>range(start, stop, step)\<close>, materialised: a zero step raises \<open>ValueError\<close>; otherwise
  the elements are \<open>start + i * step\<close> for \<open>i\<close> below the length that CPython computes.
\<close>

definition range_len :: "int \<Rightarrow> int \<Rightarrow> int \<Rightarrow> nat" where
  "range_len start stop step =
     (if 0 < step \<and> start < stop then nat ((stop - start - 1) div step + 1)
      else if step < 0 \<and> stop < start then nat ((start - stop - 1) div (- step) + 1)
      else 0)"

definition range3 :: "int \<Rightarrow> int \<Rightarrow> int \<Rightarrow> error + int list" where
  "range3 start stop step =
     (if step = 0 then Inl ValueError
      else Inr (map (\<lambda>i. start + int i * step) [0..<range_len start stop step]))"

subsection \<open>Options, events and the outside world\<close>

text \<open>
  The option dictionaries, after the framework has converted each value to its declared
  type. \<open>reset_pin\<close> is optional: \<open>None\<close> stands for the unset value \<open>""\<close>. The two
  floating-point times \<open>reset_hold\<close> and \<open>reset_delay\<close> only ever reach \<open>time.sleep\<close>
  and appear in the trace by name. \<open>detect\<close> is \<open>config["OCTOWIRE"].getint("detect")\<close>
  read as a truth value.
\<close>

record options =
  uart_interface :: int
  mode :: string
  reset_pin :: "int option"
  trigger :: bool
  reset_pol :: string
  baudrate_min :: int
  baudrate_max :: int
  baudrate_inc :: int
  baudrate_list :: string
  trigger_char :: "byte list"
  detect :: bool

datatype level = INFO | WARNING | ERROR | RESULT | HEADER | USER_INTERACT

datatype message =
    InvalidResetPolarity
  | InvalidResetPin
  | InvalidMode
  | EmptyOrInvalidList
  | Switching int
  | TriggeringDevice
  | NotValidBaudrate int
  | ValidBaudrateFound int
  | NoDataReceived int
  | AttemptingReset
  | StartingDetection
  | PressCtrlC
  | PressUserButton
  | Raised error

datatype duration = TriggerSettle | ResetHold | ResetDelay

datatype event =
    Connect
  | Log level message
  | UartInit int
  | GpioInit int
  | GpioDirectionOutput
  | GpioStatus nat
  | SerialReadWaiting
  | UartConfigure int
  | UartReceiveWaiting
  | Sleep duration
  | WaitBytes bool
  | UartReceive byte
  | UartTransmit "byte list"
  | Prompt string
  | UartPassthrough
  | SerialClose
  | DetectOctowire
  | Miniterm

text \<open>
  What the outside world does while one candidate is tested: whether each of the three
  adapter calls of \<open>change_baudrate\<close> returns normally, what the \<open>i\<close>-th call of
  \<open>wait_bytes\<close> finds (\<open>Some b\<close>: input became available within the one-second window
  and \<open>receive(1)\<close> then returns \<open>b\<close>; \<open>None\<close>: the window elapsed), and what the operator
  answers at the prompt. The adapter calls inside the probe are taken to succeed.
\<close>

record cand_env =
  serial_read_ok :: bool
  configure_ok :: bool
  receive_ok :: bool
  polls :: "nat \<Rightarrow> byte option"
  resp :: string

text \<open>The three ways out of the probe loop (lines 208, 218/219 and 228).\<close>

datatype probe_result = Rejected | Timeout | Accepted

record probe =
  returned :: bool
  terminal :: probe_result
  events :: "event list"

definition prepend :: "event list \<Rightarrow> probe \<Rightarrow> probe" where
  "prepend evs r = r\<lparr>events := evs @ events r\<rparr>"

subsection \<open>The module\<close>

text \<open>\<open>__init__\<close>, lines 81 to 85: the table of accepted characters.\<close>

definition extended_asciitable :: "pyval list" where
  "extended_asciitable =
     map (\<lambda>n. PStr (chr n)) [0x20..<127]
       @ [PStr [CHR 0x0D], PStr [CHR 0x0A], PStr [CHR 0x09], PStr (chr 0x1b)]"

text \<open>Lines 196 to 199: the value tested for membership.\<close>

definition decoded :: "byte \<Rightarrow> pyval" where
  "decoded tmp = (case decode_utf8 tmp of Some s \<Rightarrow> PStr s | None \<Rightarrow> PBytes [tmp])"

text \<open>Line 201: \<open>byte in self.extended_asciitable\<close>.\<close>

definition valid_character :: "byte \<Rightarrow> bool" where
  "valid_character tmp = List.member extended_asciitable (decoded tmp)"

text \<open>
  \<open>check_options\<close>. The option values are strings, so nothing inside the \<open>try\<close> of
  lines 106 to 112 can raise; the handler is not modelled.
\<close>

definition check_options :: "options \<Rightarrow> bool \<times> event list" where
  "check_options opts =
     (if reset_pin opts \<noteq> None \<and> upper (reset_pol opts) \<notin> set [''LOW'', ''HIGH'']
      then (False, [Log ERROR InvalidResetPolarity])
      else if (case reset_pin opts of None \<Rightarrow> False | Some p \<Rightarrow> \<not> (0 \<le> p \<and> p < 15))
      then (False, [Log ERROR InvalidResetPin])
      else if upper (mode opts) \<notin> set [''INCREMENTAL'', ''LIST'']
      then (False, [Log ERROR InvalidMode])
      else if upper (mode opts) = ''LIST''
              \<and> map strip (split (baudrate_list opts) CHR '','') = []
      then (False, [Log ERROR EmptyOrInvalidList])
      else (True, []))"

text \<open>\<open>change_baudrate\<close>: any exception of the three calls is logged and gives \<open>False\<close>.\<close>

definition change_baudrate :: "cand_env \<Rightarrow> int \<Rightarrow> bool \<times> event list" where
  "change_baudrate env baudrate =
     (if \<not> serial_read_ok env
      then (False, [Log INFO (Switching baudrate), SerialReadWaiting,
                    Log ERROR (Raised DeviceError)])
      else if \<not> configure_ok env
      then (False, [Log INFO (Switching baudrate), SerialReadWaiting,
                    UartConfigure baudrate, Log ERROR (Raised DeviceError)])
      else if \<not> receive_ok env
      then (False, [Log INFO (Switching baudrate), SerialReadWaiting,
                    UartConfigure baudrate, UartReceiveWaiting,
                    Log ERROR (Raised DeviceError)])
      else (True, [Log INFO (Switching baudrate), SerialReadWaiting,
                   UartConfigure baudrate, UartReceiveWaiting]))"

definition trigger_device :: "options \<Rightarrow> event list" where
  "trigger_device opts =
     [Log INFO TriggeringDevice, UartTransmit (trigger_char opts), Sleep TriggerSettle]"

definition uart_pt_miniterm :: "options \<Rightarrow> event list" where
  "uart_pt_miniterm opts =
     [UartPassthrough, SerialClose] @ (if detect opts then [DetectOctowire] else [])
       @ [Miniterm, Log USER_INTERACT PressUserButton]"

definition threshold :: nat where
  "threshold = 20"

text \<open>Lines 205 to 208.\<close>

definition reject :: "int \<Rightarrow> probe" where
  "reject baudrate =
     \<lparr>returned = False, terminal = Rejected,
      events = [Log WARNING (NotValidBaudrate baudrate)]\<rparr>"

text \<open>Lines 210 to 219.\<close>

definition accept :: "options \<Rightarrow> cand_env \<Rightarrow> int \<Rightarrow> probe" where
  "accept opts env baudrate =
     \<lparr>returned = (if upper (resp env) = ''C'' then False else True),
      terminal = Accepted,
      events = [Log RESULT (ValidBaudrateFound baudrate), Prompt (resp env)]
                 @ (if upper (resp env) = ''Y'' then uart_pt_miniterm opts else [])\<rparr>"

text \<open>Lines 225 to 228.\<close>

definition no_data :: "int \<Rightarrow> probe" where
  "no_data baudrate =
     \<lparr>returned = False, terminal = Timeout,
      events = [Log WARNING (NoDataReceived baudrate)]\<rparr>"

text \<open>
  The \<open>while True\<close> loop of \<open>process_baudrate\<close>, with its variables \<open>count\<close> and \<open>loop\<close>;
  \<open>i\<close> numbers the calls of \<open>wait_bytes\<close>.
\<close>

function process_loop ::
  "options \<Rightarrow> cand_env \<Rightarrow> int \<Rightarrow> nat \<Rightarrow> nat \<Rightarrow> nat \<Rightarrow> probe" where
  "process_loop opts env baudrate i count loop =
     (case polls env i of
        Some tmp \<Rightarrow>
          if valid_character tmp then
            if count + 1 \<ge> threshold
            then prepend [WaitBytes True, UartReceive tmp] (accept opts env baudrate)
            else prepend [WaitBytes True, UartReceive tmp]
                   (process_loop opts env baudrate (i + 1) (count + 1) loop)
          else prepend [WaitBytes True, UartReceive tmp] (reject baudrate)
      | None \<Rightarrow>
          if trigger opts \<and> loop < 3
          then prepend (WaitBytes False # trigger_device opts)
                 (process_loop opts env baudrate (i + 1) count (loop + 1))
          else prepend [WaitBytes False] (no_data baudrate))"
  by pat_completeness auto
termination
  by (relation "measure (\<lambda>(opts, env, baudrate, i, count, loop).
                  (threshold - count) + (3 - loop))")
     (auto simp: threshold_def)

definition process_baudrate :: "options \<Rightarrow> cand_env \<Rightarrow> int \<Rightarrow> probe" where
  "process_baudrate opts env baudrate = process_loop opts env baudrate 0 0 0"

text \<open>
  \<open>reset_target\<close>; \<open>self.reset_pin\<close> is the handle \<open>init\<close> creates exactly when the
  option \<open>reset_pin\<close> is set.
\<close>

definition reset_target :: "options \<Rightarrow> event list" where
  "reset_target opts =
     (case reset_pin opts of
        None \<Rightarrow> []
      | Some p \<Rightarrow>
          [Log INFO AttemptingReset]
            @ (if upper (reset_pol opts) = ''LOW''
               then [GpioStatus 0, Sleep ResetHold, GpioStatus 1]
               else [GpioStatus 1, Sleep ResetHold, GpioStatus 0])
            @ [Sleep ResetDelay])"

definition init :: "options \<Rightarrow> event list" where
  "init opts =
     UartInit (uart_interface opts)
       # (case reset_pin opts of
            None \<Rightarrow> []
          | Some p \<Rightarrow>
              [GpioInit p, GpioDirectionOutput,
               GpioStatus (if upper (reset_pol opts) = ''LOW'' then 1 else 0)])"

text \<open>
  The \<open>for\<close> loop shared by \<open>incremental_mode\<close> and \<open>list_mode\<close>, over the candidates
  still to test; \<open>world k\<close> is the outside world during the \<open>k\<close>-th of them.
\<close>

fun sweep :: "options \<Rightarrow> (nat \<Rightarrow> cand_env) \<Rightarrow> int list \<Rightarrow> event list" where
  "sweep opts world [] = []"
| "sweep opts world (baudrate # rest) =
     (if fst (change_baudrate (world 0) baudrate)
      then snd (change_baudrate (world 0) baudrate) @ reset_target opts
             @ events (process_baudrate opts (world 0) baudrate)
             @ (if returned (process_baudrate opts (world 0) baudrate) then []
                else sweep opts (world \<circ> Suc) rest)
      else snd (change_baudrate (world 0) baudrate) @ sweep opts (world \<circ> Suc) rest)"

text \<open>
  Both modes build their candidates before the first iteration, so an exception of
  \<open>range\<close> or \<open>int\<close> is raised before the mode has had any effect.
\<close>

definition incremental_mode :: "options \<Rightarrow> (nat \<Rightarrow> cand_env) \<Rightarrow> error + event list" where
  "incremental_mode opts world =
     (case range3 (baudrate_min opts) (baudrate_max opts) (baudrate_inc opts) of
        Inl e \<Rightarrow> Inl e
      | Inr candidates \<Rightarrow> Inr (sweep opts world candidates))"

definition list_mode :: "options \<Rightarrow> (nat \<Rightarrow> cand_env) \<Rightarrow> error + event list" where
  "list_mode opts world =
     (case comprehension int_of_stripped (split (baudrate_list opts) CHR '','') of
        Inl e \<Rightarrow> Inl e
      | Inr candidates \<Rightarrow> Inr (sweep opts world candidates))"

text \<open>
  \<open>run\<close>; \<open>connected\<close> says whether \<open>self.connect()\<close> has set \<open>self.owf_serial\<close>. The
  handler of line 314 logs whatever the \<open>try\<close> block raises.
\<close>

definition run :: "options \<Rightarrow> bool \<Rightarrow> (nat \<Rightarrow> cand_env) \<Rightarrow> event list" where
  "run opts connected world =
     Connect
       # (if \<not> connected then []
          else if fst (check_options opts)
          then snd (check_options opts) @ init opts
                 @ [Log HEADER StartingDetection, Log HEADER PressCtrlC]
                 @ (case (if upper (mode opts) = ''INCREMENTAL''
                          then incremental_mode opts world
                          else if upper (mode opts) = ''LIST'' then list_mode opts world
                          else Inr [])
                    of Inl e \<Rightarrow> [Log ERROR (Raised e)]
                     | Inr evs \<Rightarrow> evs)
          else snd (check_options opts))"

subsection \<open>Observations on traces\<close>

text \<open>The bytes read by \<open>receive(1)\<close>, in order.\<close>

fun received :: "event list \<Rightarrow> byte list" where
  "received [] = []"
| "received (UartReceive b # es) = b # received es"
| "received (e # es) = received es"

text \<open>The payloads handed to \<open>transmit\<close>, in order.\<close>

fun transmitted :: "event list \<Rightarrow> byte list list" where
  "transmitted [] = []"
| "transmitted (UartTransmit bs # es) = bs # transmitted es"
| "transmitted (e # es) = transmitted es"

text \<open>The number of calls of \<open>wait_bytes\<close>, that is of polling windows.\<close>

fun windows :: "event list \<Rightarrow> nat" where
  "windows [] = 0"
| "windows (WaitBytes a # es) = Suc (windows es)"
| "windows (e # es) = windows es"

fun is_error_log :: "event \<Rightarrow> bool" where
  "is_error_log (Log ERROR m) = True"
| "is_error_log e = False"

definition reports_error :: "event list \<Rightarrow> bool" where
  "reports_error evs = list_ex is_error_log evs"

text \<open>The events before and after the first occurrence of an event.\<close>

definition before :: "event \<Rightarrow> event list \<Rightarrow> event list" where
  "before e evs = takeWhile (\<lambda>x. x \<noteq> e) evs"

definition after :: "event \<Rightarrow> event list \<Rightarrow> event list" where
  "after e evs = drop 1 (dropWhile (\<lambda>x. x \<noteq> e) evs)"

text \<open>The bytes delivered and the windows elapsed in a sequence of polling results.\<close>

fun arrived :: "byte option list \<Rightarrow> byte list" where
  "arrived [] = []"
| "arrived (Some b # ps) = b # arrived ps"
| "arrived (None # ps) = arrived ps"

fun elapsed :: "byte option list \<Rightarrow> nat" where
  "elapsed [] = 0"
| "elapsed (Some b # ps) = elapsed ps"
| "elapsed (None # ps) = Suc (elapsed ps)"

text \<open>What one iteration of the probe loop does when the loop goes on after it.\<close>

fun iteration :: "options \<Rightarrow> byte option \<Rightarrow> event list" where
  "iteration opts (Some b) = [WaitBytes True, UartReceive b]"
| "iteration opts None = WaitBytes False # trigger_device opts"

subsection \<open>Concrete inputs\<close>

text \<open>The default options of the module.\<close>

definition default_options :: options where
  "default_options =
     \<lparr>uart_interface = 0, mode = ''incremental'', reset_pin = None, trigger = False,
      reset_pol = ''low'', baudrate_min = 300, baudrate_max = 115200, baudrate_inc = 300,
      baudrate_list = ''9600,19200,38400,57600,115200'', trigger_char = [0x0D, 0x0A],
      detect = True\<rparr>"

text \<open>A target that never sends anything, behind an adapter that works.\<close>

definition silent_env :: cand_env where
  "silent_env =
     \<lparr>serial_read_ok = True, configure_ok = True, receive_ok = True,
      polls = (\<lambda>i. None), resp = []\<rparr>"

definition silent_world :: "nat \<Rightarrow> cand_env" where
  "silent_world = (\<lambda>k. silent_env)"

text \<open>A target that keeps sending the letter A, and an operator who answers \<open>r\<close>.\<close>

definition chatty_env :: "string \<Rightarrow> cand_env" where
  "chatty_env r =
     \<lparr>serial_read_ok = True, configure_ok = True, receive_ok = True,
      polls = (\<lambda>i. Some 0x41), resp = r\<rparr>"

text \<open>A target whose fifth byte is a NUL.\<close>

definition garbled_env :: cand_env where
  "garbled_env =
     \<lparr>serial_read_ok = True, configure_ok = True, receive_ok = True,
      polls = (\<lambda>i. if i = 4 then Some 0x00 else Some 0x41), resp = []\<rparr>"

definition equal_bounds_options :: options where
  "equal_bounds_options = default_options\<lparr>baudrate_max := 300\<rparr>"

definition zero_step_options :: options where
  "zero_step_options = default_options\<lparr>baudrate_inc := 0\<rparr>"

definition bad_list_options :: options where
  "bad_list_options =
     default_options\<lparr>mode := ''list'', baudrate_list := ''abc'', reset_pin := Some 3\<rparr>"

section \<open>Properties\<close>

declare process_loop.simps [simp del]

subsection \<open>Characters and strings\<close>

lemma char_of_eq_small:
  "n < 256 \<Longrightarrow> m < 256 \<Longrightarrow> (char_of (n::nat) = (char_of m :: char)) = (n = m)"
  by (simp add: char_of_eq_iff take_bit_nat_eq_self)

lemma valid_character_unat:
  "valid_character tmp \<longleftrightarrow>
     unat tmp < 128 \<and> ((32 \<le> unat tmp \<and> unat tmp < 127) \<or> unat tmp = 13 \<or> unat tmp = 10
        \<or> unat tmp = 9 \<or> unat tmp = 27)"
proof (cases "unat tmp < 128")
  case False
  then show ?thesis
    by (auto simp: valid_character_def decoded_def decode_utf8_def extended_asciitable_def)
next
  case True
  have c13: "CHR 0x0D = (char_of (13::nat) :: char)" by code_simp
  have c10: "CHR 0x0A = (char_of (10::nat) :: char)" by code_simp
  have c9: "CHR 0x09 = (char_of (9::nat) :: char)" by code_simp
  have "\<And>n. n \<in> {32..<127::nat} \<Longrightarrow>
          (char_of (unat tmp) = (char_of n :: char)) = (unat tmp = n)"
    using True by (simp add: char_of_eq_small)
  then have rng: "(\<exists>n\<in>{32..<127::nat}. (char_of (unat tmp) :: char) = char_of n)
                    = (32 \<le> unat tmp \<and> unat tmp < 127)"
    by auto
  show ?thesis
    using True rng
    by (simp add: valid_character_def decoded_def decode_utf8_def extended_asciitable_def
          chr_def image_iff c13 c10 c9 char_of_eq_small del: upt_rec_numeral)
       blast
qed

lemma valid_character_A: "valid_character 0x41"
  by (simp add: valid_character_unat)

lemma not_valid_character_NUL: "\<not> valid_character 0x00"
  by (simp add: valid_character_unat)

text \<open>
  C1. The membership test accepts exactly the byte values 0x20 to 0x7E, 0x0D, 0x0A, 0x09
  and 0x1B, and rejects every other byte value.
\<close>

theorem acceptance_alphabet:
  "valid_character tmp \<longleftrightarrow>
     (0x20 \<le> tmp \<and> tmp \<le> 0x7E) \<or> tmp = 0x0D \<or> tmp = 0x0A \<or> tmp = 0x09 \<or> tmp = 0x1B"
  unfolding valid_character_unat
  by (auto simp: word_le_nat_alt word_unat_eq_iff)

theorem acceptance_alphabet_witness:
  "valid_character 0x20 \<and> valid_character 0x7E \<and> valid_character 0x1B
     \<and> \<not> valid_character 0x00 \<and> \<not> valid_character 0x7F \<and> \<not> valid_character 0x80
     \<and> \<not> valid_character 0x1A \<and> \<not> valid_character 0x1F"
  using acceptance_alphabet [of "0x20"] acceptance_alphabet [of "0x7E"]
    acceptance_alphabet [of "0x1B"] acceptance_alphabet [of "0x00"]
    acceptance_alphabet [of "0x7F"] acceptance_alphabet [of "0x80"]
    acceptance_alphabet [of "0x1A"] acceptance_alphabet [of "0x1F"]
  by simp

subsection \<open>The probe loop\<close>

lemma prepend_prepend [simp]: "prepend xs (prepend ys r) = prepend (xs @ ys) r"
  by (simp add: prepend_def)

lemma prepend_Nil [simp]: "prepend [] r = r"
  by (simp add: prepend_def)

lemma prepend_sel [simp]:
  "returned (prepend xs r) = returned r"
  "terminal (prepend xs r) = terminal r"
  "events (prepend xs r) = xs @ events r"
  by (simp_all add: prepend_def)

lemma loop_valid_continue:
  "polls env i = Some b \<Longrightarrow> valid_character b \<Longrightarrow> count + 1 < threshold \<Longrightarrow>
   process_loop opts env baudrate i count loop =
     prepend [WaitBytes True, UartReceive b]
       (process_loop opts env baudrate (i + 1) (count + 1) loop)"
  by (subst process_loop.simps) simp

lemma loop_valid_accept:
  "polls env i = Some b \<Longrightarrow> valid_character b \<Longrightarrow> threshold \<le> count + 1 \<Longrightarrow>
   process_loop opts env baudrate i count loop =
     prepend [WaitBytes True, UartReceive b] (accept opts env baudrate)"
  by (subst process_loop.simps) simp

lemma loop_invalid:
  "polls env i = Some b \<Longrightarrow> \<not> valid_character b \<Longrightarrow>
   process_loop opts env baudrate i count loop =
     prepend [WaitBytes True, UartReceive b] (reject baudrate)"
  by (subst process_loop.simps) simp

lemma loop_trigger:
  "polls env i = None \<Longrightarrow> trigger opts \<Longrightarrow> loop < 3 \<Longrightarrow>
   process_loop opts env baudrate i count loop =
     prepend (WaitBytes False # trigger_device opts)
       (process_loop opts env baudrate (i + 1) count (loop + 1))"
  by (subst process_loop.simps) simp

lemma loop_no_data:
  "polls env i = None \<Longrightarrow> \<not> (trigger opts \<and> loop < 3) \<Longrightarrow>
   process_loop opts env baudrate i count loop =
     prepend [WaitBytes False] (no_data baudrate)"
  by (subst process_loop.simps) auto

text \<open>
  As long as valid bytes arrive below the threshold, and windows elapse within the
  trigger budget, the loop goes on.
\<close>

lemma loop_prefix:
  "\<lbrakk>\<forall>j<length ps. polls env (i + j) = ps ! j;
    \<forall>b\<in>set (arrived ps). valid_character b;
    count + length (arrived ps) < threshold;
    0 < elapsed ps \<longrightarrow> trigger opts \<and> loop + elapsed ps \<le> 3\<rbrakk>
   \<Longrightarrow> process_loop opts env baudrate i count loop =
         prepend (concat (map (iteration opts) ps))
           (process_loop opts env baudrate (i + length ps)
              (count + length (arrived ps)) (loop + elapsed ps))"
proof (induction ps arbitrary: i count loop)
  case Nil
  then show ?case by simp
next
  case (Cons p ps)
  have here: "polls env i = p"
    using Cons.prems(1) by (auto dest: spec [of _ 0])
  have later: "\<forall>j<length ps. polls env (Suc i + j) = ps ! j"
  proof (intro allI impI)
    fix j assume "j < length ps"
    then show "polls env (Suc i + j) = ps ! j"
      using Cons.prems(1) by (auto dest!: spec [of _ "Suc j"])
  qed
  show ?case
  proof (cases p)
    case None
    have budget: "trigger opts" "loop < 3"
      using Cons.prems(4) None by auto
    have rest: "process_loop opts env baudrate (Suc i) count (Suc loop) =
         prepend (concat (map (iteration opts) ps))
           (process_loop opts env baudrate (Suc i + length ps)
              (count + length (arrived ps)) (Suc loop + elapsed ps))"
      using Cons.prems None later by (intro Cons.IH) auto
    show ?thesis
      using here None budget rest by (simp add: loop_trigger)
  next
    case (Some b)
    have ok: "valid_character b" "count + 1 < threshold"
      using Cons.prems(2,3) Some by auto
    have rest: "process_loop opts env baudrate (Suc i) (Suc count) loop =
         prepend (concat (map (iteration opts) ps))
           (process_loop opts env baudrate (Suc i + length ps)
              (Suc count + length (arrived ps)) (loop + elapsed ps))"
      using Cons.prems Some later by (intro Cons.IH) auto
    show ?thesis
      using here Some ok rest by (simp add: loop_valid_continue)
  qed
qed

lemma received_append [simp]: "received (xs @ ys) = received xs @ received ys"
  by (induction xs rule: received.induct) simp_all

lemma transmitted_append [simp]: "transmitted (xs @ ys) = transmitted xs @ transmitted ys"
  by (induction xs rule: transmitted.induct) simp_all

lemma windows_append [simp]: "windows (xs @ ys) = windows xs + windows ys"
  by (induction xs rule: windows.induct) simp_all

lemma received_iterations:
  "received (concat (map (iteration opts) ps)) = arrived ps"
  by (induction ps rule: arrived.induct) (simp_all add: trigger_device_def)

lemma transmitted_iterations:
  "transmitted (concat (map (iteration opts) ps)) = replicate (elapsed ps) (trigger_char opts)"
  by (induction ps rule: arrived.induct) (simp_all add: trigger_device_def)

lemma windows_iterations:
  "windows (concat (map (iteration opts) ps)) = length ps"
  by (induction ps rule: arrived.induct) (simp_all add: trigger_device_def)

lemma arrived_map_Some [simp]: "arrived (map Some bs) = bs"
  by (induction bs) simp_all

lemma elapsed_map_Some [simp]: "elapsed (map Some bs) = 0"
  by (induction bs) simp_all

lemma arrived_replicate_None [simp]: "arrived (replicate n None) = []"
  by (induction n) simp_all

lemma elapsed_replicate_None [simp]: "elapsed (replicate n None) = n"
  by (induction n) simp_all

lemma accept_observed [simp]:
  "received (events (accept opts env baudrate)) = []"
  "transmitted (events (accept opts env baudrate)) = []"
  "windows (events (accept opts env baudrate)) = 0"
  "terminal (accept opts env baudrate) = Accepted"
  by (simp_all add: accept_def uart_pt_miniterm_def)

text \<open>
  C2. When the first 20 polling windows each deliver a byte and all 20 bytes are valid
  characters, the probe ends at the acceptance exit, having read exactly these 20 bytes
  in 20 polling windows; what the stream holds after them is never looked at.
\<close>

theorem accepted_after_twenty_reads:
  assumes "length bs = 20"
    and "\<forall>i<20. polls env i = Some (bs ! i)"
    and "\<forall>b\<in>set bs. valid_character b"
  shows "terminal (process_baudrate opts env baudrate) = Accepted
     \<and> received (events (process_baudrate opts env baudrate)) = bs
     \<and> windows (events (process_baudrate opts env baudrate)) = 20
     \<and> transmitted (events (process_baudrate opts env baudrate)) = []"
proof -
  let ?ps = "map Some (butlast bs)"
  have nonempty: "bs \<noteq> []"
    using assms(1) by auto
  have "last bs = bs ! 19"
    using assms(1) last_conv_nth [OF nonempty] by simp
  then have snoc: "butlast bs @ [bs ! 19] = bs"
    using append_butlast_last_id [OF nonempty] by simp
  have first: "\<forall>j<length ?ps. polls env (0 + j) = ?ps ! j"
    using assms(1,2) by (simp add: nth_butlast)
  have valid: "\<forall>b\<in>set (arrived ?ps). valid_character b"
    using assms(3) by (auto dest: in_set_butlastD)
  have pre: "process_loop opts env baudrate 0 0 0 =
      prepend (concat (map (iteration opts) ?ps)) (process_loop opts env baudrate 19 19 0)"
    using loop_prefix [where ps = ?ps and env = env and i = 0 and count = 0 and loop = 0
        and opts = opts and baudrate = baudrate, OF first valid] assms(1)
    by (simp add: threshold_def)
  have "bs ! 19 \<in> set bs"
    using assms(1) by simp
  then have "valid_character (bs ! 19)"
    using assms(3) by blast
  then have last: "process_loop opts env baudrate 19 19 0 =
      prepend [WaitBytes True, UartReceive (bs ! 19)] (accept opts env baudrate)"
    using assms(2) by (intro loop_valid_accept) (simp_all add: threshold_def)
  have all: "process_baudrate opts env baudrate =
      prepend (concat (map (iteration opts) ?ps) @ [WaitBytes True, UartReceive (bs ! 19)])
        (accept opts env baudrate)"
    by (simp add: process_baudrate_def pre last)
  have obs: "received (concat (map (iteration opts) ?ps)) = butlast bs"
    "windows (concat (map (iteration opts) ?ps)) = 19"
    "transmitted (concat (map (iteration opts) ?ps)) = []"
    using assms(1)
    by (simp_all add: received_iterations windows_iterations transmitted_iterations
          del: map_map)
  show ?thesis
    using snoc obs by (simp add: all del: map_map)
qed

theorem accepted_after_twenty_reads_witness:
  "terminal (process_baudrate default_options (chatty_env ''c'') 9600) = Accepted
     \<and> received (events (process_baudrate default_options (chatty_env ''c'') 9600))
         = replicate 20 0x41
     \<and> windows (events (process_baudrate default_options (chatty_env ''c'') 9600)) = 20"
  using accepted_after_twenty_reads [where bs = "replicate 20 0x41"
      and env = "chatty_env ''c''" and opts = default_options and baudrate = 9600]
  by (simp add: chatty_env_def valid_character_A)

lemma reject_observed [simp]:
  "received (events (reject baudrate)) = []"
  "transmitted (events (reject baudrate)) = []"
  "windows (events (reject baudrate)) = 0"
  "terminal (reject baudrate) = Rejected"
  "returned (reject baudrate) = False"
  "events (reject baudrate) = [Log WARNING (NotValidBaudrate baudrate)]"
  by (simp_all add: reject_def)

text \<open>
  C3. Let the probe have gone through any polling results \<open>ps\<close> that keep it running:
  the bytes among them are valid characters and fewer than 20, the elapsed windows
  among them (possible only with triggering, at most 3) were each answered by a trigger.
  If the next window delivers a byte that is not a valid character, the probe ends at
  the rejection exit and returns \<open>False\<close>: that byte is the last one read, and the
  only thing that follows it is the warning.
\<close>

theorem rejected_at_first_invalid_byte:
  assumes "\<forall>j<length ps. polls env j = ps ! j"
    and "polls env (length ps) = Some b"
    and "\<not> valid_character b"
    and "\<forall>x\<in>set (arrived ps). valid_character x"
    and "length (arrived ps) < 20"
    and "0 < elapsed ps \<longrightarrow> trigger opts \<and> elapsed ps \<le> 3"
  shows "terminal (process_baudrate opts env baudrate) = Rejected
     \<and> returned (process_baudrate opts env baudrate) = False
     \<and> received (events (process_baudrate opts env baudrate)) = arrived ps @ [b]
     \<and> windows (events (process_baudrate opts env baudrate)) = length ps + 1
     \<and> events (process_baudrate opts env baudrate) =
         concat (map (iteration opts) ps)
           @ [WaitBytes True, UartReceive b, Log WARNING (NotValidBaudrate baudrate)]"
proof -
  have first: "\<forall>j<length ps. polls env (0 + j) = ps ! j"
    using assms(1) by simp
  have pre: "process_loop opts env baudrate 0 0 0 =
      prepend (concat (map (iteration opts) ps))
        (process_loop opts env baudrate (length ps) (length (arrived ps)) (elapsed ps))"
    using loop_prefix [where ps = ps and env = env and i = 0 and count = 0 and loop = 0
        and opts = opts and baudrate = baudrate, OF first assms(4)] assms(5,6)
    by (simp add: threshold_def)
  have last: "process_loop opts env baudrate (length ps) (length (arrived ps)) (elapsed ps) =
      prepend [WaitBytes True, UartReceive b] (reject baudrate)"
    using assms(2,3) by (rule loop_invalid)
  have all: "process_baudrate opts env baudrate =
      prepend (concat (map (iteration opts) ps) @ [WaitBytes True, UartReceive b])
        (reject baudrate)"
    by (simp add: process_baudrate_def pre last)
  show ?thesis
    by (simp add: all received_iterations windows_iterations)
qed

theorem rejected_at_first_invalid_byte_witness:
  "terminal (process_baudrate default_options garbled_env 9600) = Rejected
     \<and> returned (process_baudrate default_options garbled_env 9600) = False
     \<and> received (events (process_baudrate default_options garbled_env 9600))
         = [0x41, 0x41, 0x41, 0x41, 0x00]
     \<and> windows (events (process_baudrate default_options garbled_env 9600)) = 5"
  using rejected_at_first_invalid_byte [where ps = "map Some [0x41, 0x41, 0x41, 0x41]"
      and env = garbled_env and b = "0x00" and opts = default_options and baudrate = 9600]
  by (simp add: garbled_env_def valid_character_A not_valid_character_NUL less_Suc_eq
        nth_Cons')

lemma no_data_observed [simp]:
  "received (events (no_data baudrate)) = []"
  "transmitted (events (no_data baudrate)) = []"
  "windows (events (no_data baudrate)) = 0"
  "terminal (no_data baudrate) = Timeout"
  "returned (no_data baudrate) = False"
  "events (no_data baudrate) = [Log WARNING (NoDataReceived baudrate)]"
  by (simp_all add: no_data_def)

text \<open>
  C4. When no polling window ever delivers a byte, the probe ends at the time-out exit
  and returns \<open>False\<close>. With triggering enabled it has then transmitted the trigger
  bytes exactly 3 times, each after an elapsed window, and a fourth window elapsed
  before the time-out; with triggering disabled it has transmitted nothing and exactly
  one window elapsed.
\<close>

theorem silent_target_times_out:
  assumes "\<forall>i. polls env i = None"
  shows "terminal (process_baudrate opts env baudrate) = Timeout
     \<and> returned (process_baudrate opts env baudrate) = False
     \<and> received (events (process_baudrate opts env baudrate)) = []
     \<and> (trigger opts \<longrightarrow>
          transmitted (events (process_baudrate opts env baudrate))
            = replicate 3 (trigger_char opts)
          \<and> windows (events (process_baudrate opts env baudrate)) = 4
          \<and> events (process_baudrate opts env baudrate) =
              concat (replicate 3 (WaitBytes False # trigger_device opts))
                @ [WaitBytes False, Log WARNING (NoDataReceived baudrate)])
     \<and> (\<not> trigger opts \<longrightarrow>
          transmitted (events (process_baudrate opts env baudrate)) = []
          \<and> windows (events (process_baudrate opts env baudrate)) = 1
          \<and> events (process_baudrate opts env baudrate) =
              [WaitBytes False, Log WARNING (NoDataReceived baudrate)])"
proof (cases "trigger opts")
  case True
  let ?ps = "replicate 3 (None :: byte option)"
  have first: "\<forall>j<length ?ps. polls env (0 + j) = ?ps ! j"
    using assms by simp
  have valid: "\<forall>b\<in>set (arrived ?ps). valid_character b"
    by simp
  have pre: "process_loop opts env baudrate 0 0 0 =
      prepend (concat (map (iteration opts) ?ps)) (process_loop opts env baudrate 3 0 3)"
    using loop_prefix [where ps = ?ps and env = env and i = 0 and count = 0 and loop = 0
        and opts = opts and baudrate = baudrate, OF first valid] True
    by (simp add: threshold_def)
  have last: "process_loop opts env baudrate 3 0 3 =
      prepend [WaitBytes False] (no_data baudrate)"
    using assms by (intro loop_no_data) simp_all
  have all: "process_baudrate opts env baudrate =
      prepend (concat (map (iteration opts) ?ps) @ [WaitBytes False]) (no_data baudrate)"
    by (simp add: process_baudrate_def pre last)
  have shape: "concat (map (iteration opts) ?ps) =
      concat (replicate 3 (WaitBytes False # trigger_device opts))"
    by (simp add: numeral_3_eq_3)
  have obs: "received (concat (map (iteration opts) ?ps)) = []"
    "transmitted (concat (map (iteration opts) ?ps)) = replicate 3 (trigger_char opts)"
    "windows (concat (map (iteration opts) ?ps)) = 3"
    by (simp_all only: received_iterations transmitted_iterations windows_iterations
          arrived_replicate_None elapsed_replicate_None length_replicate)
  show ?thesis
    using True obs shape by (simp add: all)
next
  case False
  have "process_loop opts env baudrate 0 0 0 = prepend [WaitBytes False] (no_data baudrate)"
    using assms False by (intro loop_no_data) simp_all
  then show ?thesis
    using False by (simp add: process_baudrate_def)
qed

theorem silent_target_times_out_witness:
  "terminal (process_baudrate (default_options\<lparr>trigger := True\<rparr>) silent_env 9600) = Timeout
     \<and> transmitted (events (process_baudrate (default_options\<lparr>trigger := True\<rparr>) silent_env 9600))
         = [[0x0D, 0x0A], [0x0D, 0x0A], [0x0D, 0x0A]]
     \<and> windows (events (process_baudrate (default_options\<lparr>trigger := True\<rparr>) silent_env 9600)) = 4
     \<and> terminal (process_baudrate default_options silent_env 9600) = Timeout
     \<and> transmitted (events (process_baudrate default_options silent_env 9600)) = []
     \<and> windows (events (process_baudrate default_options silent_env 9600)) = 1"
  using silent_target_times_out [where env = silent_env
      and opts = "default_options\<lparr>trigger := True\<rparr>" and baudrate = 9600]
    silent_target_times_out [where env = silent_env and opts = default_options
      and baudrate = 9600]
  by (simp add: silent_env_def default_options_def trigger_device_def numeral_3_eq_3)

subsection \<open>The operator's answer\<close>

lemma upper_char_eq_iff:
  assumes "(of_char d :: nat) = m" and "65 \<le> m" and "m \<le> 90"
  shows "upper_char c = [d] \<longleftrightarrow> (of_char c :: nat) = m \<or> (of_char c :: nat) = m + 32"
proof -
  define n where "n = (of_char c :: nat)"
  have small: "n < 256"
    by (simp add: n_def)
  have same: "c = d \<longleftrightarrow> n = m"
    using of_char_eq_iff [of c d, where ?'a = nat] assms(1) by (simp add: n_def)
  have shifted: "char_of (n - 32) = d \<longleftrightarrow> n - 32 = m"
    using small assms(1) by (simp add: char_of_eq_iff take_bit_nat_eq_self)
  show ?thesis
    unfolding upper_char_def Let_def n_def [symmetric]
    using same shifted assms(2,3) small by auto
qed

lemma upper_char_C: "upper_char c = ''C'' \<longleftrightarrow> c = CHR ''c'' \<or> c = CHR ''C''"
proof -
  have "upper_char c = [CHR ''C''] \<longleftrightarrow> (of_char c :: nat) = 67 \<or> (of_char c :: nat) = 67 + 32"
    by (rule upper_char_eq_iff) simp_all
  moreover have "(of_char c :: nat) = 67 \<longleftrightarrow> c = CHR ''C''"
    using of_char_eq_iff [of c "CHR ''C''", where ?'a = nat] by simp
  moreover have "(of_char c :: nat) = 99 \<longleftrightarrow> c = CHR ''c''"
    using of_char_eq_iff [of c "CHR ''c''", where ?'a = nat] by simp
  ultimately show ?thesis
    by auto
qed

lemma upper_char_Y: "upper_char c = ''Y'' \<longleftrightarrow> c = CHR ''y'' \<or> c = CHR ''Y''"
proof -
  have "upper_char c = [CHR ''Y''] \<longleftrightarrow> (of_char c :: nat) = 89 \<or> (of_char c :: nat) = 89 + 32"
    by (rule upper_char_eq_iff) simp_all
  moreover have "(of_char c :: nat) = 89 \<longleftrightarrow> c = CHR ''Y''"
    using of_char_eq_iff [of c "CHR ''Y''", where ?'a = nat] by simp
  moreover have "(of_char c :: nat) = 121 \<longleftrightarrow> c = CHR ''y''"
    using of_char_eq_iff [of c "CHR ''y''", where ?'a = nat] by simp
  ultimately show ?thesis
    by auto
qed

lemma upper_char_nonempty: "upper_char c \<noteq> []"
  by (simp add: upper_char_def Let_def)

lemma upper_Nil_iff: "upper s = [] \<longleftrightarrow> s = []"
  by (cases s) (simp_all add: upper_def upper_char_nonempty)

lemma upper_single: "upper s = [d] \<longleftrightarrow> (\<exists>c. s = [c] \<and> upper_char c = [d])"
proof (cases s)
  case Nil
  then show ?thesis by (simp add: upper_def)
next
  case (Cons c cs)
  have split_up: "upper s = upper_char c @ upper cs"
    by (simp add: Cons upper_def)
  show ?thesis
  proof
    assume one: "upper s = [d]"
    then have "length (upper_char c) + length (upper cs) = 1"
      using split_up by (metis length_append length_Cons list.size(3) One_nat_def)
    moreover have "upper_char c \<noteq> []"
      by (rule upper_char_nonempty)
    ultimately have "upper cs = []"
      by (cases "upper_char c") simp_all
    then have "cs = []"
      by (simp add: upper_Nil_iff)
    then show "\<exists>c. s = [c] \<and> upper_char c = [d]"
      using one Cons by (simp add: upper_def)
  next
    assume "\<exists>c. s = [c] \<and> upper_char c = [d]"
    then show "upper s = [d]"
      by (auto simp: upper_def)
  qed
qed

lemma upper_eq_C: "upper s = ''C'' \<longleftrightarrow> s = ''c'' \<or> s = ''C''"
  by (auto simp: upper_single upper_char_C)

lemma upper_eq_Y: "upper s = ''Y'' \<longleftrightarrow> s = ''y'' \<or> s = ''Y''"
  by (auto simp: upper_single upper_char_Y)

text \<open>
  Whatever the probe does, it returns \<open>True\<close> only from the acceptance exit and unless
  the answer is \<open>c\<close> or \<open>C\<close>, and it opens the terminal session only there and only
  when the answer is \<open>y\<close> or \<open>Y\<close>.
\<close>

lemma loop_outcome:
  "returned (process_loop opts env baudrate i count loop) \<longleftrightarrow>
     terminal (process_loop opts env baudrate i count loop) = Accepted
       \<and> resp env \<noteq> ''c'' \<and> resp env \<noteq> ''C''"
  "Miniterm \<in> set (events (process_loop opts env baudrate i count loop)) \<longleftrightarrow>
     terminal (process_loop opts env baudrate i count loop) = Accepted
       \<and> (resp env = ''y'' \<or> resp env = ''Y'')"
proof (induction opts env baudrate i count loop rule: process_loop.induct)
  case (1 opts env baudrate i count loop)
  {
    case 1
    show ?case
      by (subst (1 2) process_loop.simps)
         (use "1.IH" in \<open>auto simp: accept_def reject_def no_data_def upper_eq_C
            split: option.splits\<close>)
  next
    case 2
    show ?case
      by (subst (1 2) process_loop.simps)
         (use "1.IH" in \<open>auto simp: accept_def reject_def no_data_def upper_eq_Y
            uart_pt_miniterm_def trigger_device_def split: option.splits\<close>)
  }
qed

lemma probe_outcome:
  "returned (process_baudrate opts env baudrate) \<longleftrightarrow>
     terminal (process_baudrate opts env baudrate) = Accepted
       \<and> resp env \<noteq> ''c'' \<and> resp env \<noteq> ''C''"
  "Miniterm \<in> set (events (process_baudrate opts env baudrate)) \<longleftrightarrow>
     terminal (process_baudrate opts env baudrate) = Accepted
       \<and> (resp env = ''y'' \<or> resp env = ''Y'')"
  by (simp_all add: process_baudrate_def loop_outcome)

lemma chatty_accepted:
  "terminal (process_baudrate opts (chatty_env r) baudrate) = Accepted"
proof -
  let ?ps = "replicate 19 (Some (0x41 :: byte))"
  have first: "\<forall>j<length ?ps. polls (chatty_env r) (0 + j) = ?ps ! j"
    by (simp add: chatty_env_def)
  have valid: "\<forall>b\<in>set (arrived ?ps). valid_character b"
    using arrived_map_Some [of "replicate 19 0x41"] by (simp add: valid_character_A)
  have len: "length (arrived ?ps) = 19" "elapsed ?ps = 0"
    using arrived_map_Some [of "replicate 19 0x41"] elapsed_map_Some [of "replicate 19 0x41"]
    by simp_all
  have pre: "process_loop opts (chatty_env r) baudrate 0 0 0 =
      prepend (concat (map (iteration opts) ?ps))
        (process_loop opts (chatty_env r) baudrate 19 19 0)"
    using loop_prefix [where ps = ?ps and env = "chatty_env r" and i = 0 and count = 0
        and loop = 0 and opts = opts and baudrate = baudrate, OF first valid] len
    by (simp add: threshold_def)
  have last: "process_loop opts (chatty_env r) baudrate 19 19 0 =
      prepend [WaitBytes True, UartReceive 0x41] (accept opts (chatty_env r) baudrate)"
    by (intro loop_valid_accept) (simp_all add: threshold_def chatty_env_def valid_character_A)
  show ?thesis
    by (simp add: process_baudrate_def pre last)
qed

text \<open>
  A probe that leaves through the acceptance exit has logged the result; what follows
  that message is the prompt and then, exactly when the answer is \<open>y\<close> or \<open>Y\<close>, the
  calls that open the terminal session.
\<close>

lemma loop_handoff:
  "terminal (process_loop opts env baudrate i count loop) = Accepted \<longrightarrow>
     Log RESULT (ValidBaudrateFound baudrate)
       \<in> set (events (process_loop opts env baudrate i count loop))
     \<and> after (Log RESULT (ValidBaudrateFound baudrate))
         (events (process_loop opts env baudrate i count loop)) =
       Prompt (resp env)
         # (if resp env = ''y'' \<or> resp env = ''Y'' then uart_pt_miniterm opts else [])"
proof (induction opts env baudrate i count loop rule: process_loop.induct)
  case (1 opts env baudrate i count loop)
  show ?case
    by (simp only: process_loop.simps [of opts env baudrate i count loop])
       (use "1.IH" in \<open>auto simp: accept_def reject_def no_data_def upper_eq_Y after_def
          trigger_device_def split: option.splits\<close>)
qed

lemma probe_handoff:
  assumes "terminal (process_baudrate opts env baudrate) = Accepted"
  shows "Log RESULT (ValidBaudrateFound baudrate)
           \<in> set (events (process_baudrate opts env baudrate))"
    and "after (Log RESULT (ValidBaudrateFound baudrate))
           (events (process_baudrate opts env baudrate)) =
         Prompt (resp env)
           # (if resp env = ''y'' \<or> resp env = ''Y'' then uart_pt_miniterm opts else [])"
  using assms loop_handoff [of opts env baudrate 0 0 0]
  by (simp_all add: process_baudrate_def)

lemma uart_pt_miniterm_nonempty: "uart_pt_miniterm opts \<noteq> []"
  by (simp add: uart_pt_miniterm_def)





subsection \<open>Validation and the run\<close>

lemma split_acc_nonempty: "split_acc sep acc s \<noteq> []"
  by (induction s arbitrary: acc) simp_all

lemma split_nonempty: "split s sep \<noteq> []"
  by (simp add: split_def split_acc_nonempty)

lemma upper_literals:
  "upper ''incremental'' = ''INCREMENTAL''"
  "upper ''list'' = ''LIST''"
  "upper ''low'' = ''LOW''"
  by code_simp+

text \<open>
  C10. Splitting any string at the commas gives a non-empty list, so \<open>check_options\<close>
  never logs the empty-list error and its result does not depend on \<open>baudrate_list\<close>;
  in list mode, with no reset pin set, the empty string passes.
\<close>

theorem baudrate_list_never_rejected:
  "split s CHR '','' \<noteq> []
     \<and> check_options (opts\<lparr>baudrate_list := s\<rparr>) = check_options opts
     \<and> Log ERROR EmptyOrInvalidList \<notin> set (snd (check_options opts))
     \<and> (upper (mode opts) = ''LIST'' \<and> reset_pin opts = None \<longrightarrow>
          check_options (opts\<lparr>baudrate_list := ''''\<rparr>) = (True, []))"
  by (simp add: check_options_def split_nonempty)

theorem baudrate_list_never_rejected_witness:
  "split '''' CHR '','' \<noteq> []
     \<and> check_options (default_options\<lparr>mode := ''list'', baudrate_list := ''''\<rparr>) = (True, [])"
proof -
  have list_mode: "upper (mode (default_options\<lparr>mode := ''list''\<rparr>)) = ''LIST''"
    by (simp add: upper_literals)
  have no_pin: "reset_pin (default_options\<lparr>mode := ''list''\<rparr>) = None"
    by (simp add: default_options_def)
  show ?thesis
    using baudrate_list_never_rejected [where s = "''''"
        and opts = "default_options\<lparr>mode := ''list''\<rparr>"] list_mode no_pin
    by blast
qed

lemma abc_is_no_integer:
  "comprehension int_of_stripped (split ''abc'' CHR '','') = Inl ValueError"
  by code_simp

text \<open>
  C5, at the options \<open>mode = list\<close>, \<open>baudrate_list = abc\<close>, \<open>reset_pin = 3\<close>:
  \<open>check_options\<close> accepts them without a message, \<open>init\<close> creates the UART
  interface and configures the reset line, and only then does \<open>list_mode\<close> raise the
  \<open>ValueError\<close> of \<open>int\<close>, which the handler of \<open>run\<close> logs.
\<close>

theorem unparsable_list_reaches_hardware:
  "check_options bad_list_options = (True, [])
     \<and> list_mode bad_list_options world = Inl ValueError
     \<and> run bad_list_options True world =
         [Connect, UartInit 0, GpioInit 3, GpioDirectionOutput, GpioStatus 1,
          Log HEADER StartingDetection, Log HEADER PressCtrlC,
          Log ERROR (Raised ValueError)]"
proof -
  have checked: "check_options bad_list_options = (True, [])"
    by (simp add: check_options_def bad_list_options_def default_options_def
          upper_literals split_nonempty)
  have raised: "list_mode bad_list_options world = Inl ValueError"
    by (simp add: list_mode_def bad_list_options_def default_options_def
          abc_is_no_integer)
  have started: "init bad_list_options =
      [UartInit 0, GpioInit 3, GpioDirectionOutput, GpioStatus 1]"
    by (simp add: init_def bad_list_options_def default_options_def upper_literals)
  have listed: "upper (mode bad_list_options) = ''LIST''"
    by (simp add: bad_list_options_def upper_literals)
  show ?thesis
    by (simp add: run_def checked raised started listed)
qed

lemma check_options_quiet: "fst (check_options opts) \<Longrightarrow> snd (check_options opts) = []"
  by (auto simp: check_options_def split: if_splits)

lemma init_reports_no_error: "\<not> list_ex is_error_log (init opts)"
  by (simp add: init_def split: option.splits)

lemma empty_range:
  "(0 < step \<and> stop \<le> start) \<or> (step < 0 \<and> start \<le> stop) \<Longrightarrow>
   range_len start stop step = 0"
  by (auto simp: range_len_def)







end
